theory Spec2Isabelle
  imports Complex_Main
begin

chapter \<open>The funnel builder: graph store, connection rule, labels and validation\<close>

text \<open>
  A shallow embedding of the funnel editor's domain logic: the node templates of
  \<^verbatim>\<open>src/types/nodes.ts\<close>, the issue computation of
  \<^verbatim>\<open>src/components/ValidationPanel.tsx\<close>, and the event handlers of the
  \<^verbatim>\<open>FunnelBuilder\<close> component of \<^verbatim>\<open>App.tsx\<close> (\<^verbatim>\<open>onConnect\<close>,
  \<^verbatim>\<open>onDrop\<close>, \<^verbatim>\<open>handleImport\<close>, \<^verbatim>\<open>onNodesDelete\<close>). React state
  (\<^verbatim>\<open>nodes\<close>, \<^verbatim>\<open>edges\<close>, \<^verbatim>\<open>counters\<close>) is a record that every handler takes and
  returns; an \<^verbatim>\<open>alert\<close> is an optional message returned beside the state.
\<close>

section \<open>Data model (\<^verbatim>\<open>src/types/nodes.ts\<close>)\<close>

datatype NodeType = salesPage | orderPage | upsell | downsell | thankYou

record FunnelNodeData =
  label :: string
  type :: NodeType
  buttonLabel :: string
  icon :: string

record NodeTemplate =
  type_t :: NodeType
  label_t :: string
  buttonLabel_t :: string
  icon_t :: string
  color_t :: string
  description_t :: string

text \<open>
  The icons are emoji; a \<^typ>\<open>string\<close> holds bytes, so each icon is written as its UTF-8
  encoding.
\<close>

fun NODE_TEMPLATES :: "NodeType \<Rightarrow> NodeTemplate" where
  "NODE_TEMPLATES salesPage =
     \<lparr>type_t = salesPage, label_t = ''Sales Page'', buttonLabel_t = ''Buy Now'',
      icon_t = [CHR 0xF0, CHR 0x9F, CHR 0x93, CHR 0x84], color_t = ''#3b82f6'',
      description_t = ''Landing page to sell your product''\<rparr>"
| "NODE_TEMPLATES orderPage =
     \<lparr>type_t = orderPage, label_t = ''Order Page'', buttonLabel_t = ''Complete Order'',
      icon_t = [CHR 0xF0, CHR 0x9F, CHR 0x9B, CHR 0x92], color_t = ''#10b981'',
      description_t = ''Checkout page for customer details''\<rparr>"
| "NODE_TEMPLATES upsell =
     \<lparr>type_t = upsell, label_t = ''Upsell'', buttonLabel_t = ''Yes, Add This!'',
      icon_t = [CHR 0xE2, CHR 0xAC, CHR 0x86, CHR 0xEF, CHR 0xB8, CHR 0x8F],
      color_t = ''#f59e0b'', description_t = ''Offer additional products''\<rparr>"
| "NODE_TEMPLATES downsell =
     \<lparr>type_t = downsell, label_t = ''Downsell'', buttonLabel_t = ''Get This Instead'',
      icon_t = [CHR 0xE2, CHR 0xAC, CHR 0x87, CHR 0xEF, CHR 0xB8, CHR 0x8F],
      color_t = ''#ef4444'', description_t = ''Alternative offer if upsell declined''\<rparr>"
| "NODE_TEMPLATES thankYou =
     \<lparr>type_t = thankYou, label_t = ''Thank You'', buttonLabel_t = ''Continue'',
      icon_t = [CHR 0xE2, CHR 0x9C, CHR 0x85], color_t = ''#8b5cf6'',
      description_t = ''Order confirmation page''\<rparr>"

text \<open>The string a \<^typ>\<open>NodeType\<close> is at run time (the union's literals).\<close>

fun typeName :: "NodeType \<Rightarrow> string" where
  "typeName salesPage = ''salesPage''"
| "typeName orderPage = ''orderPage''"
| "typeName upsell = ''upsell''"
| "typeName downsell = ''downsell''"
| "typeName thankYou = ''thankYou''"

subsection \<open>Nodes and edges of the graph library, as far as the handlers use them\<close>

text \<open>
  A node's position is owned by the canvas and never inspected. An edge's rendering
  attributes (\<^verbatim>\<open>type: 'smoothstep'\<close>, \<^verbatim>\<open>animated\<close>, \<^verbatim>\<open>markerEnd\<close>) and a
  connection's handle ids (always \<^verbatim>\<open>null\<close>: the handles carry no id) are left out.
\<close>

record XYPosition =
  x :: real
  y :: real

record Node =
  node_id :: string
  node_type :: string
  position :: XYPosition
  data :: FunnelNodeData

record Edge =
  edge_id :: string
  source :: string
  target :: string

record Connection =
  source_c :: string
  target_c :: string

section \<open>Validation (\<^verbatim>\<open>src/components/ValidationPanel.tsx\<close>)\<close>

datatype IssueType = error | warning

record ValidationIssue =
  type_i :: IssueType
  message :: string
  nodeId :: "string option"

text \<open>The template literal \<^verbatim>\<open>`"${label}" <rest>`\<close>: the label between double quotes.\<close>

definition quoted :: "string \<Rightarrow> string \<Rightarrow> string" where
  "quoted l rest = [CHR 0x22] @ l @ [CHR 0x22] @ rest"

definition hasIncoming :: "Edge list \<Rightarrow> Node \<Rightarrow> bool" where
  "hasIncoming edges node = list_ex (\<lambda>e. target e = node_id node) edges"

definition hasOutgoing :: "Edge list \<Rightarrow> Node \<Rightarrow> bool" where
  "hasOutgoing edges node = list_ex (\<lambda>e. source e = node_id node) edges"

text \<open>
  The body of the first \<^verbatim>\<open>nodes.forEach\<close>: three \<^verbatim>\<open>if\<close> statements in sequence, each
  pushing onto \<^verbatim>\<open>problems\<close>, which is passed in and returned.
\<close>

definition checkNode :: "Edge list \<Rightarrow> ValidationIssue list \<Rightarrow> Node \<Rightarrow> ValidationIssue list" where
  "checkNode edges problems node =
     (let hasIn = hasIncoming edges node;
          hasOut = hasOutgoing edges node;
          nodeData = data node;
          nodeType = type nodeData;
          problems1 =
            (if nodeType = salesPage \<and> \<not> hasOut
             then problems @ [\<lparr>type_i = warning,
                    message = quoted (label nodeData) '' has no outgoing connection'',
                    nodeId = Some (node_id node)\<rparr>]
             else problems);
          problems2 =
            (if nodeType = thankYou \<and> \<not> hasIn
             then problems1 @ [\<lparr>type_i = warning,
                    message = quoted (label nodeData) '' has no incoming connection'',
                    nodeId = Some (node_id node)\<rparr>]
             else problems1)
      in if nodeType \<noteq> salesPage \<and> nodeType \<noteq> thankYou
         then (if \<not> hasIn \<and> \<not> hasOut
               then problems2 @ [\<lparr>type_i = error,
                      message = quoted (label nodeData) '' is orphaned (no connections)'',
                      nodeId = Some (node_id node)\<rparr>]
               else if \<not> hasIn
               then problems2 @ [\<lparr>type_i = warning,
                      message = quoted (label nodeData) '' has no incoming connection'',
                      nodeId = Some (node_id node)\<rparr>]
               else if \<not> hasOut
               then problems2 @ [\<lparr>type_i = warning,
                      message = quoted (label nodeData) '' has no outgoing connection'',
                      nodeId = Some (node_id node)\<rparr>]
               else problems2)
         else problems2)"

text \<open>The body of \<^verbatim>\<open>salesPages.forEach\<close>.\<close>

definition checkSalesPage :: "Edge list \<Rightarrow> ValidationIssue list \<Rightarrow> Node \<Rightarrow> ValidationIssue list" where
  "checkSalesPage edges problems sp =
     (let outgoing = filter (\<lambda>e. source e = node_id sp) edges
      in if length outgoing > 1
         then (let spData = data sp
               in problems @ [\<lparr>type_i = warning,
                    message = quoted (label spData)
                      '' has multiple outgoing connections (typically should have one)'',
                    nodeId = Some (node_id sp)\<rparr>])
         else problems)"

text \<open>
  The function given to \<^verbatim>\<open>useMemo\<close>: \<^verbatim>\<open>problems\<close> starts empty, the two loops run
  one after the other (\<^const>\<open>foldl\<close> is \<^verbatim>\<open>forEach\<close> with the array threaded through),
  and \<^verbatim>\<open>problems\<close> is returned.
\<close>

definition validate :: "Node list \<Rightarrow> Edge list \<Rightarrow> ValidationIssue list" where
  "validate nodes edges =
     (let problems = foldl (checkNode edges) [] nodes;
          salesPages = filter (\<lambda>n. type (data n) = salesPage) nodes
      in foldl (checkSalesPage edges) problems salesPages)"

text \<open>
  \<^verbatim>\<open>useMemo(f, [nodes, edges])\<close>: the component keeps the dependencies and the result
  of the last computation and calls \<^verbatim>\<open>f\<close> again only when a dependency changed. React
  compares dependencies by identity; state arrays are replaced, never mutated, so an
  identical array has equal contents, and the cell is modelled with equality of contents.
\<close>

type_synonym Memo = "(Node list \<times> Edge list \<times> ValidationIssue list) option"

definition useMemo_issues :: "Memo \<Rightarrow> Node list \<Rightarrow> Edge list \<Rightarrow> ValidationIssue list \<times> Memo" where
  "useMemo_issues memo nodes edges =
     (case memo of
        None \<Rightarrow> (let issues = validate nodes edges in (issues, Some (nodes, edges, issues)))
      | Some (nodes0, edges0, issues0) \<Rightarrow>
          if nodes0 = nodes \<and> edges0 = edges then (issues0, memo)
          else (let issues = validate nodes edges in (issues, Some (nodes, edges, issues))))"

text \<open>The memo cell after a series of renders, the first one with an empty cell.\<close>

definition renders :: "(Node list \<times> Edge list) list \<Rightarrow> Memo" where
  "renders gs = foldl (\<lambda>memo (ns, es). snd (useMemo_issues memo ns es)) None gs"

text \<open>
  What the panel shows, from the three \<^verbatim>\<open>return\<close>s of the component: the hint of the
  empty canvas, the all-clear, or the heading with the number of issues, the list items
  of \<^verbatim>\<open>issues.slice(0, 5)\<close> and the "+n more issues" line.
\<close>

datatype Panel =
    StartBuilding
  | LooksGood
  | IssueList (heading_count: nat) (shown: "ValidationIssue list") (more: "nat option")

definition renderPanel :: "Node list \<Rightarrow> ValidationIssue list \<Rightarrow> Panel" where
  "renderPanel nodes issues =
     (if length nodes = 0 then StartBuilding
      else if length issues = 0 then LooksGood
      else IssueList (length issues) (take 5 issues)
             (if length issues > 5 then Some (length issues - 5) else None))"

definition ValidationPanel :: "Memo \<Rightarrow> Node list \<Rightarrow> Edge list \<Rightarrow> Panel \<times> Memo" where
  "ValidationPanel memo nodes edges =
     (let (issues, memo') = useMemo_issues memo nodes edges
      in (renderPanel nodes issues, memo'))"

section \<open>The editor's state and handlers (\<^verbatim>\<open>FunnelBuilder\<close> in \<^verbatim>\<open>App.tsx\<close>)\<close>

text \<open>
  A JavaScript number that holds an integer prints in decimal (below \<open>10\<^sup>2\<^sup>1\<close>). The
  counters and \<^verbatim>\<open>Date.now()\<close> are integers; they are modelled as unbounded \<^typ>\<open>int\<close>,
  which is what the doubles of the source are below \<open>2\<^sup>5\<^sup>3\<close>.
\<close>

fun natToString :: "nat \<Rightarrow> string" where
  "natToString n =
     (if n < 10 then [''0123456789'' ! n]
      else natToString (n div 10) @ [''0123456789'' ! (n mod 10)])"

declare natToString.simps [simp del]

definition toString :: "int \<Rightarrow> string" where
  "toString i = (if i < 0 then ''-'' @ natToString (nat (- i)) else natToString (nat i))"

text \<open>
  The three state cells of the component, and the storage slot \<^verbatim>\<open>funnel-counters\<close>
  that \<^verbatim>\<open>saveNodeCounters\<close> writes. The slot \<^verbatim>\<open>funnel-builder-state\<close> is written
  after the state has changed and is read only when the component mounts; it is not
  part of the model.
\<close>

record State =
  nodes :: "Node list"
  edges :: "Edge list"
  counters :: "string \<rightharpoonup> int"
  funnel_counters :: "(string \<rightharpoonup> int) option"

text \<open>
  The state of a first visit: \<^verbatim>\<open>initialNodes\<close>, \<^verbatim>\<open>initialEdges\<close>, and what
  \<^verbatim>\<open>getNodeCounters\<close> returns when nothing is stored.
\<close>

definition initialState :: State where
  "initialState =
     \<lparr>nodes = [], edges = [], counters = [''upsell'' \<mapsto> 0, ''downsell'' \<mapsto> 0],
      funnel_counters = None\<rparr>"

subsection \<open>\<^verbatim>\<open>onConnect\<close>\<close>

text \<open>
  \<^verbatim>\<open>addEdge\<close> is imported from the graph library, so the handler takes it as an
  argument. \<^verbatim>\<open>sourceNode?.data\<close> is \<^verbatim>\<open>undefined\<close> when no node has the source id;
  the comparison with \<^verbatim>\<open>'thankYou'\<close> is then false and the edge is added.
\<close>

definition onConnect ::
  "(Connection \<Rightarrow> Edge list \<Rightarrow> Edge list) \<Rightarrow> State \<Rightarrow> Connection \<Rightarrow> State \<times> string option" where
  "onConnect addEdge st params =
     (let sourceNode = find (\<lambda>n. node_id n = source_c params) (nodes st);
          data' = map_option data sourceNode
      in if map_option type data' = Some thankYou
         then (st, Some ''Thank You pages cannot have outgoing connections'')
         else (st\<lparr>edges := addEdge params (edges st)\<rparr>, None))"

text \<open>
  Modelled from the spec: \<^verbatim>\<open>addEdge\<close> of the graph library, which is not part of the
  repository. The spec (4.1, 4.2) says that an allowed connection "inserts a new edge
  with a fresh id" and that parallel edges and self-loops are allowed; the id the
  library picks is the argument \<open>eid\<close>.
\<close>

definition addEdge_spec :: "string \<Rightarrow> Connection \<Rightarrow> Edge list \<Rightarrow> Edge list" where
  "addEdge_spec eid params eds =
     eds @ [\<lparr>edge_id = eid, source = source_c params, target = target_c params\<rparr>]"

subsection \<open>\<^verbatim>\<open>onDrop\<close>\<close>

text \<open>\<^verbatim>\<open>newCounters[type] || 0\<close>: a missing entry and a zero entry both read as zero.\<close>

definition counterOrZero :: "(string \<rightharpoonup> int) \<Rightarrow> string \<Rightarrow> int" where
  "counterOrZero cs k = (case cs k of None \<Rightarrow> 0 | Some v \<Rightarrow> if v = 0 then 0 else v)"

text \<open>
  The drag payload is a string; \<open>None\<close> stands for a payload that is empty or names no
  template (the first early return). The position is \<open>None\<close> while the canvas instance
  is not there (the second early return). \<open>now\<close> is the value of \<^verbatim>\<open>Date.now()\<close>.
  \<open>newCount\<close> is the value of \<^verbatim>\<open>newCounters[type]\<close> after the assignment, which the
  label reads back.
\<close>

definition onDrop :: "State \<Rightarrow> NodeType option \<Rightarrow> XYPosition option \<Rightarrow> int \<Rightarrow> State" where
  "onDrop st payload position' now =
     (case payload of
        None \<Rightarrow> st
      | Some type' \<Rightarrow>
          (let template = NODE_TEMPLATES type' in
           case position' of
             None \<Rightarrow> st
           | Some pos \<Rightarrow>
               (let newCounters0 = counters st;
                    (label', st1) =
                      (if type' = upsell \<or> type' = downsell
                       then (let newCount = counterOrZero newCounters0 (typeName type') + 1;
                                 newCounters = newCounters0(typeName type' \<mapsto> newCount)
                             in (label_t template @ '' '' @ toString newCount,
                                 st\<lparr>counters := newCounters,
                                    funnel_counters := Some newCounters\<rparr>))
                       else (label_t template, st));
                    newNode =
                      \<lparr>node_id = typeName type' @ ''-'' @ toString now,
                       node_type = ''funnel'',
                       position = pos,
                       data = \<lparr>label = label', type = type',
                               buttonLabel = buttonLabel_t template,
                               icon = icon_t template\<rparr>\<rparr>
                in st1\<lparr>nodes := nodes st1 @ [newNode]\<rparr>)))"

subsection \<open>\<^verbatim>\<open>handleImport\<close>\<close>

text \<open>
  What the handler can tell about a property of the parsed document: \<^verbatim>\<open>data.nodes\<close> is
  \<^verbatim>\<open>undefined\<close> (no such key), or a value that fails
  \<^verbatim>\<open>data.nodes && Array.isArray(data.nodes)\<close>, or an array. The elements of an
  array are taken as they are (\<^verbatim>\<open>setNodes(data.nodes)\<close>), without a check.
\<close>

datatype 'a Property = Absent | NotArray | IsArray "'a list"

text \<open>
  What \<^verbatim>\<open>JSON.parse(await file.text())\<close> gives: an exception; \<^verbatim>\<open>null\<close>, on which
  \<^verbatim>\<open>data.nodes\<close> throws; or any other value, with its two properties (both
  \<^const>\<open>Absent\<close> for a number, a string, a boolean or an array).
\<close>

datatype Parsed =
    Throws
  | JsonNull
  | JsonValue (nodes_p: "Node Property") (edges_p: "Edge Property")

text \<open>
  \<open>None\<close> is a dialog closed without a file. The \<^verbatim>\<open>try\<close> block runs its statements
  in order; the \<^verbatim>\<open>catch\<close> raises the alert. The last statement of the block stores
  the text in the slot \<^verbatim>\<open>funnel-builder-state\<close>, which is outside the model.
\<close>

definition handleImport :: "State \<Rightarrow> Parsed option \<Rightarrow> State \<times> string option" where
  "handleImport st file =
     (case file of
        None \<Rightarrow> (st, None)
      | Some Throws \<Rightarrow> (st, Some ''Invalid JSON file'')
      | Some JsonNull \<Rightarrow> (st, Some ''Invalid JSON file'')
      | Some (JsonValue dnodes dedges) \<Rightarrow>
          (let st1 = (case dnodes of IsArray ns \<Rightarrow> st\<lparr>nodes := ns\<rparr> | _ \<Rightarrow> st);
               st2 = (case dedges of IsArray es \<Rightarrow> st1\<lparr>edges := es\<rparr> | _ \<Rightarrow> st1)
           in (st2, None)))"

subsection \<open>\<^verbatim>\<open>onNodesDelete\<close> and the removals done by the graph library\<close>

definition onNodesDelete :: "State \<Rightarrow> Node list \<Rightarrow> State" where
  "onNodesDelete st deleted =
     (let deletedIds = set (map node_id deleted)
      in st\<lparr>edges := filter (\<lambda>e. source e \<notin> deletedIds \<and> target e \<notin> deletedIds) (edges st)\<rparr>)"

text \<open>
  Modelled from the spec: the removal of the nodes themselves, which the graph library
  does through \<^verbatim>\<open>onNodesChange\<close> when it calls \<^verbatim>\<open>onNodesDelete\<close>. The spec (4.1):
  \<^verbatim>\<open>deleteNodes(ids)\<close> "removes all listed nodes and, atomically, all edges whose source
  or target is in ids". The edges are removed by the repository's handler.
\<close>

definition deleteNodes :: "State \<Rightarrow> Node list \<Rightarrow> State" where
  "deleteNodes st deleted =
     onNodesDelete
       (st\<lparr>nodes := filter (\<lambda>n. node_id n \<notin> set (map node_id deleted)) (nodes st)\<rparr>)
       deleted"

text \<open>
  Modelled from the spec: the removal of one edge, which the graph library does through
  \<^verbatim>\<open>onEdgesChange\<close>. The spec (4.1): \<^verbatim>\<open>removeEdge(id)\<close> is a "simple removal".
\<close>

definition removeEdge :: "State \<Rightarrow> string \<Rightarrow> State" where
  "removeEdge st eid = st\<lparr>edges := filter (\<lambda>e. edge_id e \<noteq> eid) (edges st)\<rparr>"

subsection \<open>Sequences of events\<close>

datatype Event =
    Drop "NodeType option" "XYPosition option" int
  | Connect Connection
  | NodesDelete "Node list"
  | EdgeRemove string
  | Import "Parsed option"

fun step :: "(Connection \<Rightarrow> Edge list \<Rightarrow> Edge list) \<Rightarrow> State \<Rightarrow> Event \<Rightarrow> State" where
  "step addEdge st (Drop payload pos now) = onDrop st payload pos now"
| "step addEdge st (Connect params) = fst (onConnect addEdge st params)"
| "step addEdge st (NodesDelete deleted) = deleteNodes st deleted"
| "step addEdge st (EdgeRemove eid) = removeEdge st eid"
| "step addEdge st (Import file) = fst (handleImport st file)"

text \<open>A drop that gets past both early returns and adds a node of type \<open>t\<close>.\<close>

fun addsNode :: "NodeType \<Rightarrow> Event \<Rightarrow> bool" where
  "addsNode t (Drop (Some t') (Some pos) now) = (t' = t)"
| "addsNode t _ = False"

text \<open>
  The labels of the nodes of type \<open>t\<close> that a sequence of events creates, in the order
  of their creation: each is read off the node that \<^const>\<open>onDrop\<close> has just appended.
\<close>

fun createdLabels ::
  "NodeType \<Rightarrow> (Connection \<Rightarrow> Edge list \<Rightarrow> Edge list) \<Rightarrow> State \<Rightarrow> Event list \<Rightarrow> string list" where
  "createdLabels t addEdge st [] = []"
| "createdLabels t addEdge st (ev # evs) =
     (if addsNode t ev then [label (data (last (nodes (step addEdge st ev))))] else [])
     @ createdLabels t addEdge (step addEdge st ev) evs"

text \<open>Every edge starts and ends at a node of the graph.\<close>

definition noDangling :: "State \<Rightarrow> bool" where
  "noDangling st =
     list_all (\<lambda>e. source e \<in> set (map node_id (nodes st))
                 \<and> target e \<in> set (map node_id (nodes st))) (edges st)"

section \<open>Notation for the statements\<close>

text \<open>The issue that the validation pushes for a node: severity, quoted label and rest.\<close>

definition issueFor :: "IssueType \<Rightarrow> Node \<Rightarrow> string \<Rightarrow> ValidationIssue" where
  "issueFor t n rest =
     \<lparr>type_i = t, message = quoted (label (data n)) rest, nodeId = Some (node_id n)\<rparr>"

text \<open>A memo cell is sound when the result it holds is the one of its dependencies.\<close>

definition memo_ok :: "Memo \<Rightarrow> bool" where
  "memo_ok memo = (case memo of None \<Rightarrow> True | Some (ns, es, r) \<Rightarrow> r = validate ns es)"

text \<open>
  A small funnel for the concrete checks: a sales page, the first upsell and a
  thank-you page in a row, as the editor leaves them after three drops and two
  connections.
\<close>

definition p0 :: XYPosition where "p0 = \<lparr>x = 0, y = 0\<rparr>"

definition funnelNode :: "string \<Rightarrow> NodeType \<Rightarrow> string \<Rightarrow> Node" where
  "funnelNode i t l =
     \<lparr>node_id = i, node_type = ''funnel'', position = \<lparr>x = 0, y = 0\<rparr>,
      data = \<lparr>label = l, type = t, buttonLabel = buttonLabel_t (NODE_TEMPLATES t),
              icon = icon_t (NODE_TEMPLATES t)\<rparr>\<rparr>"

definition exampleFunnel :: State where
  "exampleFunnel =
     \<lparr>nodes = [funnelNode ''salesPage-1'' salesPage ''Sales Page'',
               funnelNode ''upsell-2'' upsell ''Upsell 1'',
               funnelNode ''thankYou-3'' thankYou ''Thank You''],
      edges = [\<lparr>edge_id = ''e1'', source = ''salesPage-1'', target = ''upsell-2''\<rparr>,
               \<lparr>edge_id = ''e2'', source = ''upsell-2'', target = ''thankYou-3''\<rparr>],
      counters = [''upsell'' \<mapsto> 1, ''downsell'' \<mapsto> 0],
      funnel_counters = Some [''upsell'' \<mapsto> 1, ''downsell'' \<mapsto> 0]\<rparr>"

text \<open>
  A graph with an issue of every kind: seven nodes of the five types and three edges,
  two of them leaving the same sales page.
\<close>

definition manyIssuesNodes :: "Node list" where
  "manyIssuesNodes =
     [funnelNode ''salesPage-1'' salesPage ''Sales Page'',
      funnelNode ''orderPage-2'' orderPage ''Order Page'',
      funnelNode ''upsell-3'' upsell ''Upsell 1'',
      funnelNode ''downsell-4'' downsell ''Downsell 1'',
      funnelNode ''thankYou-5'' thankYou ''Thank You'',
      funnelNode ''salesPage-6'' salesPage ''Sales Page'',
      funnelNode ''orderPage-7'' orderPage ''Order Page'']"

definition manyIssuesEdges :: "Edge list" where
  "manyIssuesEdges =
     [\<lparr>edge_id = ''e1'', source = ''salesPage-6'', target = ''orderPage-2''\<rparr>,
      \<lparr>edge_id = ''e2'', source = ''salesPage-6'', target = ''upsell-3''\<rparr>,
      \<lparr>edge_id = ''e3'', source = ''downsell-4'', target = ''upsell-3''\<rparr>]"

section \<open>Lemmas\<close>

subsection \<open>The two loops of the validation\<close>

lemma checkNode_append: "checkNode es acc n = acc @ checkNode es [] n"
  by (simp add: checkNode_def Let_def)

lemma checkNode_middle:
  assumes "type (data n) \<noteq> salesPage" and "type (data n) \<noteq> thankYou"
  shows "checkNode es [] n =
     (if \<not> hasIncoming es n \<and> \<not> hasOutgoing es n
      then [issueFor error n '' is orphaned (no connections)'']
      else if \<not> hasIncoming es n then [issueFor warning n '' has no incoming connection'']
      else if \<not> hasOutgoing es n then [issueFor warning n '' has no outgoing connection'']
      else [])"
  using assms by (simp add: checkNode_def Let_def issueFor_def)

lemma checkNode_nodeId: "i \<in> set (checkNode es [] m) \<Longrightarrow> nodeId i = Some (node_id m)"
  by (auto simp add: checkNode_def Let_def split: if_splits)

lemma filter_checkNode_same:
  "filter (\<lambda>i. nodeId i = Some (node_id m)) (checkNode es [] m) = checkNode es [] m"
  by (rule filter_True) (simp add: checkNode_nodeId)

lemma filter_checkNode_other:
  "node_id m \<noteq> a \<Longrightarrow> filter (\<lambda>i. nodeId i = Some a) (checkNode es [] m) = []"
  by (rule filter_False) (auto dest: checkNode_nodeId)

lemma filter_perNode_absent:
  "a \<notin> set (map node_id ns) \<Longrightarrow>
   filter (\<lambda>i. nodeId i = Some a) (concat (map (checkNode es []) ns)) = []"
  by (induction ns) (auto simp add: filter_checkNode_other)

lemma filter_perNode_present:
  "distinct (map node_id ns) \<Longrightarrow> n \<in> set ns \<Longrightarrow>
   filter (\<lambda>i. nodeId i = Some (node_id n)) (concat (map (checkNode es []) ns))
     = checkNode es [] n"
proof (induction ns)
  case Nil
  then show ?case by simp
next
  case (Cons m ns)
  show ?case
  proof (cases "m = n")
    case True
    with Cons.prems have "node_id n \<notin> set (map node_id ns)" by simp
    then show ?thesis
      using True by (simp add: filter_checkNode_same filter_perNode_absent)
  next
    case False
    with Cons.prems have in_rest: "n \<in> set ns" and "distinct (map node_id ns)"
      and "node_id m \<notin> set (map node_id ns)" by simp_all
    then have "node_id m \<noteq> node_id n" by auto
    then show ?thesis
      using Cons.IH \<open>distinct (map node_id ns)\<close> in_rest
      by (simp add: filter_checkNode_other)
  qed
qed

lemma foldl_checkNode:
  "foldl (checkNode es) acc ns = acc @ concat (map (checkNode es []) ns)"
proof (induction ns arbitrary: acc)
  case Nil
  then show ?case by simp
next
  case (Cons n ns)
  show ?case
    using Cons.IH [of "checkNode es acc n"] checkNode_append [of es acc n]
    by simp
qed

lemma checkSalesPage_append: "checkSalesPage es acc n = acc @ checkSalesPage es [] n"
  by (simp add: checkSalesPage_def Let_def)

lemma foldl_checkSalesPage:
  "foldl (checkSalesPage es) acc ns = acc @ concat (map (checkSalesPage es []) ns)"
proof (induction ns arbitrary: acc)
  case Nil
  then show ?case by simp
next
  case (Cons n ns)
  show ?case
    using Cons.IH [of "checkSalesPage es acc n"] checkSalesPage_append [of es acc n]
    by simp
qed

lemma concat_checkSalesPage:
  "concat (map (checkSalesPage es []) ns) =
   map (\<lambda>sp. issueFor warning sp
          '' has multiple outgoing connections (typically should have one)'')
     (filter (\<lambda>n. 1 < length (filter (\<lambda>e. source e = node_id n) es)) ns)"
  by (induction ns) (simp_all add: checkSalesPage_def Let_def issueFor_def)

lemma validate_eq:
  "validate ns es =
     concat (map (checkNode es []) ns)
     @ map (\<lambda>sp. issueFor warning sp
              '' has multiple outgoing connections (typically should have one)'')
         (filter (\<lambda>n. type (data n) = salesPage
                     \<and> 1 < length (filter (\<lambda>e. source e = node_id n) es)) ns)"
  by (simp add: validate_def Let_def foldl_checkNode foldl_checkSalesPage
        concat_checkSalesPage conj_commute)

lemma filter_fanOut_middle:
  assumes "distinct (map node_id ns)" and "n \<in> set ns" and "type (data n) \<noteq> salesPage"
  shows "filter (\<lambda>i. nodeId i = Some (node_id n))
           (map (\<lambda>sp. issueFor warning sp r)
              (filter (\<lambda>m. type (data m) = salesPage \<and> P m) ns)) = []"
proof -
  have "m \<in> set ns \<Longrightarrow> node_id m = node_id n \<Longrightarrow> m = n" for m
    using assms(1,2) by (meson distinct_map inj_onD)
  then show ?thesis
    using assms(3) by (auto simp add: filter_empty_conv issueFor_def)
qed

text \<open>The loop body on an empty list, as the rules for the five types over the edges.\<close>

lemma checkNode_rules:
  "checkNode es [] =
     (\<lambda>n. if type (data n) = salesPage then
        (if \<exists>e\<in>set es. source e = node_id n then []
         else [\<lparr>type_i = warning,
                message = [CHR 0x22] @ label (data n) @ [CHR 0x22]
                            @ '' has no outgoing connection'',
                nodeId = Some (node_id n)\<rparr>])
      else if type (data n) = thankYou then
        (if \<exists>e\<in>set es. target e = node_id n then []
         else [\<lparr>type_i = warning,
                message = [CHR 0x22] @ label (data n) @ [CHR 0x22]
                            @ '' has no incoming connection'',
                nodeId = Some (node_id n)\<rparr>])
      else if (\<forall>e\<in>set es. target e \<noteq> node_id n) \<and> (\<forall>e\<in>set es. source e \<noteq> node_id n) then
        [\<lparr>type_i = error,
          message = [CHR 0x22] @ label (data n) @ [CHR 0x22]
                      @ '' is orphaned (no connections)'',
          nodeId = Some (node_id n)\<rparr>]
      else if \<forall>e\<in>set es. target e \<noteq> node_id n then
        [\<lparr>type_i = warning,
          message = [CHR 0x22] @ label (data n) @ [CHR 0x22]
                      @ '' has no incoming connection'',
          nodeId = Some (node_id n)\<rparr>]
      else if \<forall>e\<in>set es. source e \<noteq> node_id n then
        [\<lparr>type_i = warning,
          message = [CHR 0x22] @ label (data n) @ [CHR 0x22]
                      @ '' has no outgoing connection'',
          nodeId = Some (node_id n)\<rparr>]
      else [])"
  by (rule ext) (simp add: checkNode_def hasIncoming_def hasOutgoing_def list_ex_iff quoted_def Let_def)

subsection \<open>The memo cell\<close>

lemma useMemo_issues_ok:
  "memo_ok memo \<Longrightarrow> fst (useMemo_issues memo ns es) = validate ns es
     \<and> memo_ok (snd (useMemo_issues memo ns es))"
  by (auto simp add: memo_ok_def useMemo_issues_def Let_def split: option.splits)

lemma renders_ok: "memo_ok (renders gs)"
proof (induction gs rule: rev_induct)
  case Nil
  then show ?case by (simp add: renders_def memo_ok_def)
next
  case (snoc g gs)
  obtain ns es where g: "g = (ns, es)" by (cases g)
  have "renders (gs @ [g]) = snd (useMemo_issues (renders gs) ns es)"
    by (simp add: renders_def g)
  then show ?case using useMemo_issues_ok [OF snoc.IH] by simp
qed

subsection \<open>Dropping a node\<close>

lemma typeName_inj: "typeName a = typeName b \<longleftrightarrow> a = b"
  by (cases a; cases b) simp_all

lemma counterOrZero_upd:
  "counterOrZero (cs(k \<mapsto> v)) k' = (if k' = k then v else counterOrZero cs k')"
  by (simp add: counterOrZero_def)

lemma onDrop_repeatable:
  assumes "t = upsell \<or> t = downsell"
  shows "onDrop st (Some t) (Some pos) now =
     st\<lparr>counters := (counters st)(typeName t \<mapsto> counterOrZero (counters st) (typeName t) + 1),
        funnel_counters :=
          Some ((counters st)(typeName t \<mapsto> counterOrZero (counters st) (typeName t) + 1)),
        nodes := nodes st @
          [\<lparr>node_id = typeName t @ ''-'' @ toString now, node_type = ''funnel'',
            position = pos,
            data = \<lparr>label = label_t (NODE_TEMPLATES t) @ '' '' @
                       toString (counterOrZero (counters st) (typeName t) + 1),
                    type = t, buttonLabel = buttonLabel_t (NODE_TEMPLATES t),
                    icon = icon_t (NODE_TEMPLATES t)\<rparr>\<rparr>]\<rparr>"
  using assms by (auto simp add: onDrop_def Let_def)

lemma onDrop_other:
  assumes "t \<noteq> upsell" and "t \<noteq> downsell"
  shows "onDrop st (Some t) (Some pos) now =
     st\<lparr>nodes := nodes st @
          [\<lparr>node_id = typeName t @ ''-'' @ toString now, node_type = ''funnel'',
            position = pos,
            data = \<lparr>label = label_t (NODE_TEMPLATES t), type = t,
                    buttonLabel = buttonLabel_t (NODE_TEMPLATES t),
                    icon = icon_t (NODE_TEMPLATES t)\<rparr>\<rparr>]\<rparr>"
  using assms by (simp add: onDrop_def Let_def)

lemma onDrop_nodes:
  "\<exists>l. nodes (onDrop st (Some t) (Some pos) now) = nodes st @
     [\<lparr>node_id = typeName t @ ''-'' @ toString now, node_type = ''funnel'', position = pos,
       data = \<lparr>label = l, type = t, buttonLabel = buttonLabel_t (NODE_TEMPLATES t),
               icon = icon_t (NODE_TEMPLATES t)\<rparr>\<rparr>]"
  by (cases "t = upsell \<or> t = downsell") (auto simp add: onDrop_repeatable onDrop_other)

subsection \<open>Counters and labels along a sequence of events\<close>

lemma counters_step:
  "counterOrZero (counters (step addEdge st ev)) (typeName t) =
     counterOrZero (counters st) (typeName t)
       + (if addsNode t ev \<and> (t = upsell \<or> t = downsell) then 1 else 0)"
proof (cases ev)
  case (Drop payload pos now)
  show ?thesis
  proof (cases payload)
    case None
    then show ?thesis using Drop by (simp add: onDrop_def)
  next
    case (Some t')
    show ?thesis
    proof (cases pos)
      case None
      then show ?thesis using Drop Some by (simp add: onDrop_def Let_def)
    next
      case (Some p)
      show ?thesis
      proof (cases "t' = upsell \<or> t' = downsell")
        case True
        then show ?thesis
          using Drop \<open>payload = Some t'\<close> Some
          by (auto simp add: onDrop_repeatable counterOrZero_upd typeName_inj)
      next
        case False
        then show ?thesis
          using Drop \<open>payload = Some t'\<close> Some
          by (auto simp add: onDrop_other)
      qed
    qed
  qed
next
  case (Connect params)
  then show ?thesis by (simp add: onConnect_def Let_def)
next
  case (NodesDelete deleted)
  then show ?thesis by (simp add: deleteNodes_def onNodesDelete_def Let_def)
next
  case (EdgeRemove eid)
  then show ?thesis by (simp add: removeEdge_def)
next
  case (Import f)
  then show ?thesis
    by (simp add: handleImport_def Let_def split: option.splits Parsed.splits Property.splits)
qed

lemma counters_step_any:
  "counterOrZero (counters st) k \<le> counterOrZero (counters (step addEdge st ev)) k"
proof (cases ev)
  case (Drop payload pos now)
  show ?thesis
  proof (cases payload)
    case None
    then show ?thesis using Drop by (simp add: onDrop_def)
  next
    case (Some t')
    show ?thesis
    proof (cases pos)
      case None
      then show ?thesis using Drop Some by (simp add: onDrop_def Let_def)
    next
      case (Some p)
      show ?thesis
      proof (cases "t' = upsell \<or> t' = downsell")
        case True
        then show ?thesis
          using Drop \<open>payload = Some t'\<close> Some
          by (auto simp add: onDrop_repeatable counterOrZero_upd)
      next
        case False
        then show ?thesis
          using Drop \<open>payload = Some t'\<close> Some
          by (auto simp add: onDrop_other)
      qed
    qed
  qed
next
  case (Connect params)
  then show ?thesis by (simp add: onConnect_def Let_def)
next
  case (NodesDelete deleted)
  then show ?thesis by (simp add: deleteNodes_def onNodesDelete_def Let_def)
next
  case (EdgeRemove eid)
  then show ?thesis by (simp add: removeEdge_def)
next
  case (Import f)
  then show ?thesis
    by (simp add: handleImport_def Let_def split: option.splits Parsed.splits Property.splits)
qed

lemma label_of_added:
  assumes "addsNode t ev" and "t = upsell \<or> t = downsell"
  shows "label (data (last (nodes (step addEdge st ev))))
           = label_t (NODE_TEMPLATES t) @ '' '' @
               toString (counterOrZero (counters st) (typeName t) + 1)"
proof -
  from assms(1) obtain pos now where "ev = Drop (Some t) (Some pos) now"
    by (cases "(t, ev)" rule: addsNode.cases) auto
  then show ?thesis using assms(2) by (auto simp add: onDrop_repeatable)
qed

lemma createdLabels_repeatable:
  assumes "t = upsell \<or> t = downsell"
  shows "createdLabels t addEdge st evs =
     map (\<lambda>k. label_t (NODE_TEMPLATES t) @ '' '' @ toString k)
       [counterOrZero (counters st) (typeName t) + 1 ..
        counterOrZero (counters st) (typeName t) + int (length (filter (addsNode t) evs))]"
proof (induction evs arbitrary: st)
  case Nil
  then show ?case by simp
next
  case (Cons ev evs)
  show ?case
  proof (cases "addsNode t ev")
    case True
    let ?c = "counterOrZero (counters st) (typeName t)"
    let ?m = "length (filter (addsNode t) evs)"
    let ?mk = "\<lambda>k. label_t (NODE_TEMPLATES t) @ '' '' @ toString k"
    have c: "counterOrZero (counters (step addEdge st ev)) (typeName t) = ?c + 1"
      using counters_step [of addEdge st ev t] True assms by simp
    have tl: "createdLabels t addEdge (step addEdge st ev) evs
                = map ?mk [?c + 1 + 1 .. ?c + 1 + int ?m]"
      using Cons.IH [of "step addEdge st ev"] by (simp only: c)
    have hd: "label (data (last (nodes (step addEdge st ev)))) = ?mk (?c + 1)"
      by (rule label_of_added [OF True assms])
    have bound: "?c + int (length (filter (addsNode t) (ev # evs))) = ?c + 1 + int ?m"
      using True by simp
    have "[?c + 1 .. ?c + 1 + int ?m] = (?c + 1) # [?c + 1 + 1 .. ?c + 1 + int ?m]"
      by (rule upto_rec1) simp
    then have "map ?mk [?c + 1 .. ?c + 1 + int ?m]
                 = ?mk (?c + 1) # map ?mk [?c + 1 + 1 .. ?c + 1 + int ?m]"
      by (simp only: list.map)
    moreover have "createdLabels t addEdge st (ev # evs)
                 = ?mk (?c + 1) # map ?mk [?c + 1 + 1 .. ?c + 1 + int ?m]"
      using True by (simp only: createdLabels.simps if_True tl hd append_Cons append_Nil)
    ultimately show ?thesis by (simp only: bound)
  next
    case False
    have c: "counterOrZero (counters (step addEdge st ev)) (typeName t)
               = counterOrZero (counters st) (typeName t)"
      using counters_step [of addEdge st ev t] False by simp
    show ?thesis using False Cons.IH [of "step addEdge st ev"] by (simp add: c)
  qed
qed

subsection \<open>Edges and the nodes they name\<close>

lemma noDangling_iff:
  "noDangling st \<longleftrightarrow>
     (\<forall>e \<in> set (edges st). source e \<in> node_id ` set (nodes st)
                           \<and> target e \<in> node_id ` set (nodes st))"
  by (simp add: noDangling_def list_all_iff)

lemma noDangling_onConnect:
  assumes "noDangling st"
    and "source_c params \<in> set (map node_id (nodes st))"
    and "target_c params \<in> set (map node_id (nodes st))"
    and "\<forall>e \<in> set (addEdge params (edges st)).
           e \<in> set (edges st) \<or> (source e = source_c params \<and> target e = target_c params)"
  shows "noDangling (fst (onConnect addEdge st params))"
  using assms unfolding onConnect_def Let_def
  by (auto simp add: noDangling_iff split: if_splits)

lemma noDangling_deleteNodes:
  assumes "noDangling st"
  shows "noDangling (deleteNodes st deleted)"
proof -
  let ?D = "set (map node_id deleted)"
  have keep: "i \<in> node_id ` set (filter (\<lambda>n. node_id n \<notin> ?D) (nodes st))"
    if "i \<in> node_id ` set (nodes st)" and "i \<notin> ?D" for i
    using that by auto
  show ?thesis
    using assms keep
    by (simp add: noDangling_iff deleteNodes_def onNodesDelete_def Let_def)
qed

lemma noDangling_removeEdge:
  assumes "noDangling st"
  shows "noDangling (removeEdge st eid)"
  using assms by (simp add: noDangling_iff removeEdge_def)

section \<open>The claims\<close>

text \<open>
  C1 (cascade deletion). Deleting the nodes \<open>deleted\<close>, with \<open>D\<close> their ids, leaves no
  edge whose source or target is in \<open>D\<close> and no node whose id is in \<open>D\<close>; the edges that
  remain are exactly the earlier edges with neither end in \<open>D\<close>, and they are the edges
  that the handler \<^verbatim>\<open>onNodesDelete\<close> leaves. Nodes and edges go in one step of the
  model.
\<close>

theorem deleteNodes_cascade:
  "filter (\<lambda>e. source e \<in> set (map node_id deleted) \<or> target e \<in> set (map node_id deleted))
      (edges (deleteNodes st deleted)) = []
   \<and> filter (\<lambda>n. node_id n \<in> set (map node_id deleted)) (nodes (deleteNodes st deleted)) = []
   \<and> edges (deleteNodes st deleted)
       = filter (\<lambda>e. source e \<notin> set (map node_id deleted)
                     \<and> target e \<notin> set (map node_id deleted)) (edges st)
   \<and> edges (onNodesDelete st deleted) = edges (deleteNodes st deleted)"
  by (auto simp add: deleteNodes_def onNodesDelete_def Let_def filter_empty_conv)

text \<open>
  C2 (terminal node). When the node that \<^verbatim>\<open>nodes.find\<close> returns for the source id of a
  connection has type \<^verbatim>\<open>thankYou\<close>, \<^verbatim>\<open>onConnect\<close> returns the state as it was
  (nodes, edges and their number, counters) together with the alert, whatever
  \<^verbatim>\<open>addEdge\<close> would have done.
\<close>

theorem thankYou_source_rejected:
  assumes "find (\<lambda>n. node_id n = source_c params) (nodes st) = Some n"
    and "type (data n) = thankYou"
  shows "onConnect addEdge st params
           = (st, Some ''Thank You pages cannot have outgoing connections'')"
  using assms by (simp add: onConnect_def Let_def)

theorem thankYou_source_rejected_witness:
  "onConnect (addEdge_spec ''e1'')
     (initialState\<lparr>nodes := [funnelNode ''thankYou-1'' thankYou ''Thank You'',
                              funnelNode ''orderPage-2'' orderPage ''Order Page'']\<rparr>)
     \<lparr>source_c = ''thankYou-1'', target_c = ''orderPage-2''\<rparr>
   = (initialState\<lparr>nodes := [funnelNode ''thankYou-1'' thankYou ''Thank You'',
                              funnelNode ''orderPage-2'' orderPage ''Order Page'']\<rparr>,
      Some ''Thank You pages cannot have outgoing connections'')"
  by (rule thankYou_source_rejected [where n = "funnelNode ''thankYou-1'' thankYou ''Thank You''"])
     (simp_all add: funnelNode_def initialState_def)

text \<open>
  C3 (import), as the code has it. Each key is checked on its own: the nodes are
  replaced exactly when \<^verbatim>\<open>nodes\<close> holds an array, the edges exactly when \<^verbatim>\<open>edges\<close>
  holds an array, and a key that is absent or holds no array leaves its own collection
  alone. A file that cannot be read or parsed, or that parses to \<^verbatim>\<open>null\<close>, changes
  nothing and raises the alert; no file changes nothing.
\<close>

theorem handleImport_per_key:
  "(doc = None \<or> doc = Some Throws \<or> doc = Some JsonNull \<longrightarrow>
      fst (handleImport st doc) = st)
   \<and> (doc = Some (JsonValue dnodes dedges) \<longrightarrow>
        fst (handleImport st doc)
          = st\<lparr>nodes := (case dnodes of IsArray ns \<Rightarrow> ns | _ \<Rightarrow> nodes st),
               edges := (case dedges of IsArray es \<Rightarrow> es | _ \<Rightarrow> edges st)\<rparr>)
   \<and> snd (handleImport st doc)
       = (if doc = Some Throws \<or> doc = Some JsonNull then Some ''Invalid JSON file''
          else None)"
  by (auto simp add: handleImport_def Let_def split: option.splits Parsed.splits Property.splits)

theorem handleImport_per_key_witness:
  "fst (handleImport exampleFunnel (Some Throws)) = exampleFunnel
   \<and> snd (handleImport exampleFunnel (Some Throws)) = Some ''Invalid JSON file''
   \<and> fst (handleImport exampleFunnel (Some (JsonValue Absent NotArray))) = exampleFunnel
   \<and> fst (handleImport exampleFunnel (Some (JsonValue (IsArray []) (IsArray []))))
       = exampleFunnel\<lparr>nodes := [], edges := []\<rparr>"
  using handleImport_per_key [where doc = "Some Throws" and st = exampleFunnel]
    handleImport_per_key [where doc = "Some (JsonValue Absent NotArray)" and dnodes = Absent
      and dedges = NotArray and st = exampleFunnel]
    handleImport_per_key [where doc = "Some (JsonValue (IsArray []) (IsArray []))"
      and dnodes = "IsArray []" and dedges = "IsArray []" and st = exampleFunnel]
  by simp

text \<open>
  C3 as stated fails: a document with an array under \<^verbatim>\<open>nodes\<close> and no \<^verbatim>\<open>edges\<close> key
  is accepted without an alert; it replaces the nodes and keeps the edges.
\<close>

theorem import_nodes_only_counterexample:
  "handleImport exampleFunnel (Some (JsonValue (IsArray []) Absent))
     = (exampleFunnel\<lparr>nodes := []\<rparr>, None)
   \<and> nodes (exampleFunnel\<lparr>nodes := []\<rparr>) \<noteq> nodes exampleFunnel
   \<and> edges (exampleFunnel\<lparr>nodes := []\<rparr>) = edges exampleFunnel
   \<and> edges exampleFunnel \<noteq> []"
  by (simp add: handleImport_def exampleFunnel_def Let_def)

text \<open>
  C4 (orphan priority). For a node of type \<^verbatim>\<open>orderPage\<close>, \<^verbatim>\<open>upsell\<close> or
  \<^verbatim>\<open>downsell\<close> the loop body pushes at most one issue, chosen in the order orphan, no
  incoming, no outgoing; and when the node has neither an incoming nor an outgoing edge
  (and the node ids are distinct), the issues of the whole validation that carry its id
  are exactly the one error "is orphaned (no connections)".
\<close>

theorem orphan_reported_once:
  assumes "type (data n) = orderPage \<or> type (data n) = upsell \<or> type (data n) = downsell"
  shows "checkNode es [] n =
     (if \<not> hasIncoming es n \<and> \<not> hasOutgoing es n
      then [issueFor error n '' is orphaned (no connections)'']
      else if \<not> hasIncoming es n then [issueFor warning n '' has no incoming connection'']
      else if \<not> hasOutgoing es n then [issueFor warning n '' has no outgoing connection'']
      else [])
   \<and> (n \<in> set ns \<and> distinct (map node_id ns)
        \<and> \<not> hasIncoming es n \<and> \<not> hasOutgoing es n \<longrightarrow>
      filter (\<lambda>i. nodeId i = Some (node_id n)) (validate ns es)
        = [issueFor error n '' is orphaned (no connections)''])"
proof -
  from assms have mid: "type (data n) \<noteq> salesPage" "type (data n) \<noteq> thankYou" by auto
  have first: "checkNode es [] n =
     (if \<not> hasIncoming es n \<and> \<not> hasOutgoing es n
      then [issueFor error n '' is orphaned (no connections)'']
      else if \<not> hasIncoming es n then [issueFor warning n '' has no incoming connection'']
      else if \<not> hasOutgoing es n then [issueFor warning n '' has no outgoing connection'']
      else [])"
    by (rule checkNode_middle [OF mid])
  have second: "filter (\<lambda>i. nodeId i = Some (node_id n)) (validate ns es)
        = [issueFor error n '' is orphaned (no connections)'']"
    if "n \<in> set ns" "distinct (map node_id ns)" "\<not> hasIncoming es n" "\<not> hasOutgoing es n"
  proof -
    have "filter (\<lambda>i. nodeId i = Some (node_id n)) (validate ns es) = checkNode es [] n"
      unfolding validate_eq filter_append
      using filter_perNode_present [OF that(2,1)] filter_fanOut_middle [OF that(2,1) mid(1)]
      by simp
    then show ?thesis using first that(3,4) by simp
  qed
  from first second show ?thesis by blast
qed

theorem orphan_reported_once_witness:
  "checkNode [\<lparr>edge_id = ''e1'', source = ''salesPage-1'', target = ''thankYou-3''\<rparr>] []
       (funnelNode ''upsell-2'' upsell ''Upsell 1'')
     = [issueFor error (funnelNode ''upsell-2'' upsell ''Upsell 1'')
          '' is orphaned (no connections)'']
   \<and> filter (\<lambda>i. nodeId i = Some ''upsell-2'')
        (validate [funnelNode ''salesPage-1'' salesPage ''Sales Page'',
                   funnelNode ''upsell-2'' upsell ''Upsell 1'',
                   funnelNode ''thankYou-3'' thankYou ''Thank You'']
                  [\<lparr>edge_id = ''e1'', source = ''salesPage-1'', target = ''thankYou-3''\<rparr>])
     = [issueFor error (funnelNode ''upsell-2'' upsell ''Upsell 1'')
          '' is orphaned (no connections)'']"
proof -
  let ?n = "funnelNode ''upsell-2'' upsell ''Upsell 1''"
  let ?es = "[\<lparr>edge_id = ''e1'', source = ''salesPage-1'', target = ''thankYou-3''\<rparr>]"
  let ?ns = "[funnelNode ''salesPage-1'' salesPage ''Sales Page'', ?n,
              funnelNode ''thankYou-3'' thankYou ''Thank You'']"
  have t: "type (data ?n) = orderPage \<or> type (data ?n) = upsell \<or> type (data ?n) = downsell"
    by (simp add: funnelNode_def)
  have h: "?n \<in> set ?ns \<and> distinct (map node_id ?ns)
           \<and> \<not> hasIncoming ?es ?n \<and> \<not> hasOutgoing ?es ?n"
    by (simp add: funnelNode_def hasIncoming_def hasOutgoing_def)
  have i: "node_id ?n = ''upsell-2''"
    by (simp add: funnelNode_def)
  show ?thesis
    using orphan_reported_once [OF t, of ?es ?ns] h by (simp add: i)
qed

text \<open>
  C5 (counter monotonicity). From any state and along any sequence of events (drops of
  any type, connections, deletions, removals of edges, imports), the labels of the
  upsell nodes created are "Upsell c+1", "Upsell c+2", ... up to the number of upsell
  nodes added, \<open>c\<close> being the upsell counter at the start: the numbers are consecutive,
  hence strictly increasing. No event lowers the counter of any type.
\<close>

theorem upsell_labels_increasing:
  "createdLabels upsell addEdge st evs =
     map (\<lambda>k. ''Upsell '' @ toString k)
       [counterOrZero (counters st) ''upsell'' + 1 ..
        counterOrZero (counters st) ''upsell'' + int (length (filter (addsNode upsell) evs))]
   \<and> sorted_wrt (<)
       [counterOrZero (counters st) ''upsell'' + 1 ..
        counterOrZero (counters st) ''upsell'' + int (length (filter (addsNode upsell) evs))]
   \<and> counterOrZero (counters st) k \<le> counterOrZero (counters (step addEdge st ev)) k"
  using createdLabels_repeatable [of upsell addEdge st evs] counters_step_any [of st k addEdge ev]
  by (simp add: sorted_wrt_upto)

theorem upsell_labels_increasing_witness:
  "createdLabels upsell (addEdge_spec ''e3'') exampleFunnel
     [NodesDelete [funnelNode ''upsell-2'' upsell ''Upsell 1''],
      Drop (Some upsell) (Some p0) 1700000000000,
      Drop (Some downsell) (Some p0) 1700000000200,
      Drop (Some upsell) None 1700000000300,
      Drop (Some upsell) (Some p0) 1700000000400]
   = [''Upsell 2'', ''Upsell 3'']"
  using upsell_labels_increasing [of "addEdge_spec ''e3''" exampleFunnel
     "[NodesDelete [funnelNode ''upsell-2'' upsell ''Upsell 1''],
       Drop (Some upsell) (Some p0) 1700000000000,
       Drop (Some downsell) (Some p0) 1700000000200,
       Drop (Some upsell) None 1700000000300,
       Drop (Some upsell) (Some p0) 1700000000400]"]
  by (simp add: exampleFunnel_def counterOrZero_def upto.simps toString_def natToString.simps)

text \<open>
  C6 (complete, ordered list). The validation returns, in this order, the issues of
  each node in the order of the node list, then one fan-out warning for each sales page
  with more than one outgoing edge, again in the order of the node list. The issues of
  a node are: for a sales page, the warning "has no outgoing connection" when no edge
  leaves it; for a thank-you page, the warning "has no incoming connection" when no
  edge enters it; for the three other types, the error "is orphaned (no connections)"
  when no edge touches it, else the warning for the missing incoming edge, else the
  warning for the missing outgoing edge; and nothing otherwise. Nothing is cut off: the
  panel shows the number of all issues, the first five of them and the number of the
  rest, computed from this list.
\<close>

theorem validate_complete_ordered:
  "validate ns es =
     concat (map (\<lambda>n.
       if type (data n) = salesPage then
         (if \<exists>e\<in>set es. source e = node_id n then []
          else [\<lparr>type_i = warning,
                 message = [CHR 0x22] @ label (data n) @ [CHR 0x22]
                             @ '' has no outgoing connection'',
                 nodeId = Some (node_id n)\<rparr>])
       else if type (data n) = thankYou then
         (if \<exists>e\<in>set es. target e = node_id n then []
          else [\<lparr>type_i = warning,
                 message = [CHR 0x22] @ label (data n) @ [CHR 0x22]
                             @ '' has no incoming connection'',
                 nodeId = Some (node_id n)\<rparr>])
       else if (\<forall>e\<in>set es. target e \<noteq> node_id n)
               \<and> (\<forall>e\<in>set es. source e \<noteq> node_id n) then
         [\<lparr>type_i = error,
           message = [CHR 0x22] @ label (data n) @ [CHR 0x22]
                       @ '' is orphaned (no connections)'',
           nodeId = Some (node_id n)\<rparr>]
       else if \<forall>e\<in>set es. target e \<noteq> node_id n then
         [\<lparr>type_i = warning,
           message = [CHR 0x22] @ label (data n) @ [CHR 0x22]
                       @ '' has no incoming connection'',
           nodeId = Some (node_id n)\<rparr>]
       else if \<forall>e\<in>set es. source e \<noteq> node_id n then
         [\<lparr>type_i = warning,
           message = [CHR 0x22] @ label (data n) @ [CHR 0x22]
                       @ '' has no outgoing connection'',
           nodeId = Some (node_id n)\<rparr>]
       else []) ns)
     @ map (\<lambda>sp. \<lparr>type_i = warning,
                    message = [CHR 0x22] @ label (data sp) @ [CHR 0x22]
                      @ '' has multiple outgoing connections (typically should have one)'',
                    nodeId = Some (node_id sp)\<rparr>)
         (filter (\<lambda>n. type (data n) = salesPage
                     \<and> 1 < length (filter (\<lambda>e. source e = node_id n) es)) ns)
   \<and> fst (ValidationPanel (renders before) ns es)
       = (if length ns = 0 then StartBuilding
          else if length (validate ns es) = 0 then LooksGood
          else IssueList (length (validate ns es)) (take 5 (validate ns es))
                 (if 5 < length (validate ns es) then Some (length (validate ns es) - 5)
                  else None))
   \<and> fst (ValidationPanel (renders before) ns es) = renderPanel ns (validate ns es)"
  (is "_ = ?per_node @ ?fan_out \<and> _ \<and> _")
proof -
  have panel: "fst (ValidationPanel (renders before) ns es)
          = renderPanel ns (fst (useMemo_issues (renders before) ns es))"
    by (simp add: ValidationPanel_def split_beta)
  have list: "validate ns es =
     concat (map (checkNode es []) ns)
     @ map (\<lambda>sp. issueFor warning sp
              '' has multiple outgoing connections (typically should have one)'')
         (filter (\<lambda>n. type (data n) = salesPage
                     \<and> 1 < length (filter (\<lambda>e. source e = node_id n) es)) ns)"
    by (rule validate_eq)
  have rules: "validate ns es = ?per_node @ ?fan_out"
    unfolding list checkNode_rules issueFor_def quoted_def by (rule refl)
  have shown: "fst (ValidationPanel (renders before) ns es) = renderPanel ns (validate ns es)"
    using panel useMemo_issues_ok [OF renders_ok, of before ns es] by simp
  from rules shown show ?thesis
    by (simp only: renderPanel_def simp_thms)
qed

theorem validate_complete_ordered_witness:
  "validate manyIssuesNodes manyIssuesEdges =
     [\<lparr>type_i = warning,
       message = [CHR 0x22] @ ''Sales Page'' @ [CHR 0x22] @ '' has no outgoing connection'',
       nodeId = Some ''salesPage-1''\<rparr>,
      \<lparr>type_i = warning,
       message = [CHR 0x22] @ ''Order Page'' @ [CHR 0x22] @ '' has no outgoing connection'',
       nodeId = Some ''orderPage-2''\<rparr>,
      \<lparr>type_i = warning,
       message = [CHR 0x22] @ ''Upsell 1'' @ [CHR 0x22] @ '' has no outgoing connection'',
       nodeId = Some ''upsell-3''\<rparr>,
      \<lparr>type_i = warning,
       message = [CHR 0x22] @ ''Downsell 1'' @ [CHR 0x22] @ '' has no incoming connection'',
       nodeId = Some ''downsell-4''\<rparr>,
      \<lparr>type_i = warning,
       message = [CHR 0x22] @ ''Thank You'' @ [CHR 0x22] @ '' has no incoming connection'',
       nodeId = Some ''thankYou-5''\<rparr>,
      \<lparr>type_i = error,
       message = [CHR 0x22] @ ''Order Page'' @ [CHR 0x22] @ '' is orphaned (no connections)'',
       nodeId = Some ''orderPage-7''\<rparr>,
      \<lparr>type_i = warning,
       message = [CHR 0x22] @ ''Sales Page'' @ [CHR 0x22]
                   @ '' has multiple outgoing connections (typically should have one)'',
       nodeId = Some ''salesPage-6''\<rparr>]
   \<and> heading_count (fst (ValidationPanel (renders []) manyIssuesNodes manyIssuesEdges)) = 7
   \<and> length (shown (fst (ValidationPanel (renders []) manyIssuesNodes manyIssuesEdges))) = 5
   \<and> Panel.more (fst (ValidationPanel (renders []) manyIssuesNodes manyIssuesEdges)) = Some 2"
  (is "_ = ?issues \<and> _ \<and> _ \<and> _")
proof -
  note inst = validate_complete_ordered [of manyIssuesNodes manyIssuesEdges "[]"]
  have v: "validate manyIssuesNodes manyIssuesEdges = ?issues"
    by (rule trans [OF conjunct1 [OF inst]])
       (simp add: manyIssuesNodes_def manyIssuesEdges_def funnelNode_def)
  have n: "length manyIssuesNodes \<noteq> 0"
    by (simp add: manyIssuesNodes_def)
  have p: "fst (ValidationPanel (renders []) manyIssuesNodes manyIssuesEdges)
             = IssueList 7 (take 5 ?issues) (Some 2)"
    using conjunct1 [OF conjunct2 [OF inst]] n by (simp add: v)
  show ?thesis
    by (simp only: v p Panel.sel length_take) simp
qed

text \<open>
  C7 (no dangling edges), as the code has it. If every edge joins existing nodes, it
  still does after a deletion of nodes and after the removal of an edge; and after a
  connection whose source and target are ids of existing nodes, provided
  \<^verbatim>\<open>addEdge\<close> adds nothing but edges between these two. \<^verbatim>\<open>onConnect\<close> itself does
  not look whether the two nodes exist.
\<close>

theorem mutations_keep_edges_attached:
  assumes "noDangling st"
  shows "(source_c params \<in> set (map node_id (nodes st))
          \<and> target_c params \<in> set (map node_id (nodes st))
          \<and> (\<forall>e \<in> set (addEdge params (edges st)).
                e \<in> set (edges st)
                \<or> (source e = source_c params \<and> target e = target_c params))
          \<longrightarrow> noDangling (fst (onConnect addEdge st params)))
       \<and> noDangling (deleteNodes st deleted)
       \<and> noDangling (removeEdge st eid)"
  using noDangling_onConnect [OF assms] noDangling_deleteNodes [OF assms]
    noDangling_removeEdge [OF assms]
  by blast

theorem mutations_keep_edges_attached_witness:
  "noDangling exampleFunnel
   \<and> noDangling (fst (onConnect (addEdge_spec ''e3'') exampleFunnel
        \<lparr>source_c = ''salesPage-1'', target_c = ''thankYou-3''\<rparr>))
   \<and> length (edges (fst (onConnect (addEdge_spec ''e3'') exampleFunnel
        \<lparr>source_c = ''salesPage-1'', target_c = ''thankYou-3''\<rparr>))) = 3
   \<and> noDangling (deleteNodes exampleFunnel [funnelNode ''upsell-2'' upsell ''Upsell 1''])
   \<and> noDangling (removeEdge exampleFunnel ''e1'')"
proof -
  have h: "noDangling exampleFunnel"
    by (simp add: noDangling_def exampleFunnel_def funnelNode_def)
  have a: "source_c \<lparr>source_c = ''salesPage-1'', target_c = ''thankYou-3''\<rparr>
             \<in> set (map node_id (nodes exampleFunnel))
           \<and> target_c \<lparr>source_c = ''salesPage-1'', target_c = ''thankYou-3''\<rparr>
             \<in> set (map node_id (nodes exampleFunnel))
           \<and> (\<forall>e \<in> set (addEdge_spec ''e3''
                  \<lparr>source_c = ''salesPage-1'', target_c = ''thankYou-3''\<rparr> (edges exampleFunnel)).
                e \<in> set (edges exampleFunnel)
                \<or> (source e = source_c \<lparr>source_c = ''salesPage-1'', target_c = ''thankYou-3''\<rparr>
                   \<and> target e = target_c \<lparr>source_c = ''salesPage-1'', target_c = ''thankYou-3''\<rparr>))"
    by (simp add: exampleFunnel_def funnelNode_def addEdge_spec_def)
  have l: "length (edges (fst (onConnect (addEdge_spec ''e3'') exampleFunnel
        \<lparr>source_c = ''salesPage-1'', target_c = ''thankYou-3''\<rparr>))) = 3"
    by (simp add: onConnect_def exampleFunnel_def funnelNode_def
          addEdge_spec_def Let_def)
  show ?thesis
    using h a l
      mutations_keep_edges_attached [OF h, of "\<lparr>source_c = ''salesPage-1'', target_c = ''thankYou-3''\<rparr>"
        "addEdge_spec ''e3''" "[funnelNode ''upsell-2'' upsell ''Upsell 1'']" "''e1''"]
    by blast
qed

text \<open>
  C7 as stated fails: a connection from an id that no node has passes the guard (the
  \<^verbatim>\<open>find\<close> returns \<^verbatim>\<open>undefined\<close>, which is not a thank-you page) and the edge is
  added.
\<close>

theorem connect_unknown_source_counterexample:
  "noDangling exampleFunnel
   \<and> \<not> noDangling (fst (onConnect (addEdge_spec ''e3'') exampleFunnel
          \<lparr>source_c = ''orderPage-9'', target_c = ''thankYou-3''\<rparr>))"
  by (simp add: noDangling_def onConnect_def exampleFunnel_def funnelNode_def
        addEdge_spec_def Let_def)

text \<open>
  C8 (node ids), as the code has it. A drop appends one node, whose id is the type name,
  a hyphen and the clock reading, and leaves the nodes before it as they were. The ids
  are pairwise distinct afterwards exactly when they were before and no node had that
  id. A deletion keeps distinct ids distinct; a connection and the removal of an edge do
  not touch the nodes.
\<close>

theorem onDrop_id:
  "butlast (nodes (onDrop st (Some t) (Some pos) now)) = nodes st
   \<and> node_id (last (nodes (onDrop st (Some t) (Some pos) now)))
       = typeName t @ ''-'' @ toString now
   \<and> (distinct (map node_id (nodes (onDrop st (Some t) (Some pos) now)))
        \<longleftrightarrow> distinct (map node_id (nodes st))
            \<and> typeName t @ ''-'' @ toString now \<notin> set (map node_id (nodes st)))
   \<and> (distinct (map node_id (nodes st)) \<longrightarrow>
        distinct (map node_id (nodes (deleteNodes st deleted))))
   \<and> nodes (fst (onConnect addEdge st params)) = nodes st
   \<and> nodes (removeEdge st eid) = nodes st"
proof -
  obtain l where n: "nodes (onDrop st (Some t) (Some pos) now) = nodes st @
      [\<lparr>node_id = typeName t @ ''-'' @ toString now, node_type = ''funnel'', position = pos,
        data = \<lparr>label = l, type = t, buttonLabel = buttonLabel_t (NODE_TEMPLATES t),
                icon = icon_t (NODE_TEMPLATES t)\<rparr>\<rparr>]"
    using onDrop_nodes by blast
  have del: "distinct (map node_id (nodes st)) \<Longrightarrow>
        distinct (map node_id (nodes (deleteNodes st deleted)))"
    by (simp add: deleteNodes_def onNodesDelete_def Let_def distinct_map_filter)
  have c: "nodes (fst (onConnect addEdge st params)) = nodes st"
    by (simp add: onConnect_def Let_def)
  have r: "nodes (removeEdge st eid) = nodes st"
    by (simp add: removeEdge_def)
  from del c r show ?thesis by (simp add: n)
qed

theorem onDrop_id_witness:
  "distinct (map node_id (nodes exampleFunnel))
   \<and> node_id (last (nodes (onDrop exampleFunnel (Some upsell) (Some p0) 1700000000000)))
       = ''upsell-1700000000000''
   \<and> distinct (map node_id (nodes (onDrop exampleFunnel (Some upsell) (Some p0) 1700000000000)))
   \<and> distinct (map node_id (nodes (deleteNodes exampleFunnel
        [funnelNode ''upsell-2'' upsell ''Upsell 1''])))"
proof -
  have d: "distinct (map node_id (nodes exampleFunnel))"
    by (simp add: exampleFunnel_def funnelNode_def)
  have f: "toString 1700000000000 = ''1700000000000''"
    by (simp add: toString_def natToString.simps)
  have m: "map node_id (nodes exampleFunnel) = [''salesPage-1'', ''upsell-2'', ''thankYou-3'']"
    by (simp add: exampleFunnel_def funnelNode_def)
  show ?thesis
    using d onDrop_id [of exampleFunnel upsell p0 1700000000000
        "[funnelNode ''upsell-2'' upsell ''Upsell 1'']" "addEdge_spec ''e3''"
        "\<lparr>source_c = ''salesPage-1'', target_c = ''thankYou-3''\<rparr>" "''e1''"]
    by (simp add: f m)
qed

text \<open>
  C8 as stated fails: two drops of the same type at the same clock reading give two
  nodes with the same id.
\<close>

theorem same_clock_reading_counterexample:
  "distinct (map node_id (nodes (onDrop initialState (Some upsell) (Some p0) 1700000000000)))
   \<and> \<not> distinct (map node_id (nodes
          (onDrop (onDrop initialState (Some upsell) (Some p0) 1700000000000)
             (Some upsell) (Some p0) 1700000000000)))"
  by (simp add: onDrop_repeatable initialState_def)

text \<open>
  C9 (labels). A drop of type \<^verbatim>\<open>upsell\<close> or \<^verbatim>\<open>downsell\<close> raises this type's counter
  by one (an absent counter counts as zero) and labels the new node with the template
  label, a space and the new counter value; a drop of any other type leaves the counters
  alone and labels the new node with the template label. In both cases the new node is
  appended and has the type dropped.
\<close>

theorem onDrop_label:
  "(t = upsell \<or> t = downsell \<longrightarrow>
      counters (onDrop st (Some t) (Some pos) now)
        = (counters st)(typeName t \<mapsto> counterOrZero (counters st) (typeName t) + 1)
      \<and> label (data (last (nodes (onDrop st (Some t) (Some pos) now))))
        = label_t (NODE_TEMPLATES t) @ '' '' @
            toString (counterOrZero (counters (onDrop st (Some t) (Some pos) now)) (typeName t)))
   \<and> (t \<noteq> upsell \<and> t \<noteq> downsell \<longrightarrow>
      counters (onDrop st (Some t) (Some pos) now) = counters st
      \<and> label (data (last (nodes (onDrop st (Some t) (Some pos) now))))
        = label_t (NODE_TEMPLATES t))
   \<and> butlast (nodes (onDrop st (Some t) (Some pos) now)) = nodes st
   \<and> type (data (last (nodes (onDrop st (Some t) (Some pos) now)))) = t"
  by (cases "t = upsell \<or> t = downsell")
     (auto simp add: onDrop_repeatable onDrop_other counterOrZero_upd)

theorem onDrop_label_witness:
  "label (data (last (nodes (onDrop initialState (Some upsell) (Some p0) 1700000000000))))
     = ''Upsell 1''
   \<and> label (data (last (nodes
        (onDrop (onDrop initialState (Some upsell) (Some p0) 1700000000000)
           (Some upsell) (Some p0) 1700000000500)))) = ''Upsell 2''
   \<and> label (data (last (nodes (onDrop initialState (Some orderPage) (Some p0) 1700000000000))))
     = ''Order Page''
   \<and> counters (onDrop initialState (Some orderPage) (Some p0) 1700000000000)
     = counters initialState"
  using onDrop_label [of upsell initialState p0 1700000000000]
    onDrop_label [of upsell "onDrop initialState (Some upsell) (Some p0) 1700000000000"
      p0 1700000000500]
    onDrop_label [of orderPage initialState p0 1700000000000]
  by (simp add: initialState_def counterOrZero_def toString_def natToString.simps)

text \<open>
  C10 (determinism). Whatever the panel has rendered before, the issues it computes for
  a graph are \<^const>\<open>validate\<close> of its nodes and edges, so two calls on the same graph
  return the same list: the memo cell, the only state between calls, has no influence.
\<close>

theorem validate_deterministic:
  "fst (useMemo_issues (renders before1) ns es) = validate ns es
   \<and> fst (useMemo_issues (renders before1) ns es)
       = fst (useMemo_issues (renders before2) ns es)"
  using useMemo_issues_ok [OF renders_ok] by simp

end
